theory Spec2Isabelle
  imports Complex_Main
begin

section \<open>Python strings\<close>

text \<open>
  A Python \<open>str\<close> is modelled as a \<open>string\<close>, one \<open>char\<close> per code point
  (code points 0 to 255). \<open>str.strip()\<close> without argument removes the characters
  for which \<open>str.isspace\<close> holds; in this range these are TAB to CR (9 to 13), the
  separators FS to US (28 to 31), the space (32), NEL (133) and the no-break space (160).
\<close>

definition isspace :: "char \<Rightarrow> bool" where
  "isspace c =
     (let n = (of_char c :: nat)
      in (9 \<le> n \<and> n \<le> 13) \<or> (28 \<le> n \<and> n \<le> 32) \<or> n = 133 \<or> n = 160)"

definition strip :: "string \<Rightarrow> string" where
  "strip s = rev (dropWhile isspace (rev (dropWhile isspace s)))"

text \<open>
  \<open>text.split('. ')\<close>: the text is cut at every occurrence of the two characters
  period, space, found from left to right and not overlapping. The result always has at
  least one element (\<open>''.split('. ') == ['']\<close>).
\<close>

fun str_split :: "string \<Rightarrow> string list" where
  "str_split [] = [[]]"
| "str_split [c] = [[c]]"
| "str_split (c # d # cs) =
     (if c = CHR ''.'' \<and> d = CHR '' '' then [] # str_split cs
      else (case str_split (d # cs) of
              u # us \<Rightarrow> (c # u) # us
            | [] \<Rightarrow> [[c]]))"

section \<open>The text chunker\<close>

text \<open>
  \<open>split_into_chunks\<close>, lines 89 to 110 of \<open>pdf_extractor.py\<close>. The loop state is the
  pair of \<open>chunks\<close> and \<open>current_chunk\<close>. \<open>max_chunk_size\<close> is a Python integer, so
  an \<open>int\<close>; \<open>overlap\<close> is accepted and never read.
\<close>

fun chunk_loop :: "int \<Rightarrow> string list \<Rightarrow> string list \<times> string \<Rightarrow> string list \<times> string" where
  "chunk_loop max_chunk_size [] st = st"
| "chunk_loop max_chunk_size (s # sentences) (chunks, current_chunk) =
     (let sentence = strip s @ ''. '' in
      if int (length current_chunk) + int (length sentence) > max_chunk_size
      then chunk_loop max_chunk_size sentences
             (if strip current_chunk \<noteq> [] then chunks @ [strip current_chunk] else chunks,
              sentence)
      else chunk_loop max_chunk_size sentences (chunks, current_chunk @ sentence))"

definition split_into_chunks :: "string \<Rightarrow> int \<Rightarrow> int \<Rightarrow> string list" where
  "split_into_chunks text max_chunk_size overlap =
     (case chunk_loop max_chunk_size (str_split text) ([], []) of
        (chunks, current_chunk) \<Rightarrow>
          if strip current_chunk \<noteq> [] then chunks @ [strip current_chunk] else chunks)"

section \<open>Exceptions, console output and the outside world\<close>

text \<open>
  An exception is an instance of a subclass of \<open>Exception\<close> (what \<open>except Exception\<close>
  catches); it is modelled by its message \<open>str(e)\<close>. A computation that may raise returns
  \<open>exn + 'a\<close>, \<open>Inl\<close> being the exception.
\<close>

datatype exn = Exception string

fun str_exn :: "exn \<Rightarrow> string" where
  "str_exn (Exception msg) = msg"

text \<open>\<open>str(n)\<close> for a non-negative integer, as the f-strings print it.\<close>

fun str_nat :: "nat \<Rightarrow> string" where
  "str_nat n =
     (if n < 10 then [char_of (48 + n)]
      else str_nat (n div 10) @ [char_of (48 + n mod 10)])"

declare str_nat.simps [simp del]

text \<open>
  An embedding is a list of floats; the program moves them around and never computes with
  them, so they are taken as reals. A row of \<open>project_embeddings\<close> and a row of
  \<open>project_knowledge\<close> have the columns the program writes and reads (fields prefixed
  \<open>pe_\<close> and \<open>pk_\<close>). Timestamps are stored as the program sends them, the text
  \<open>now()\<close> that the datastore resolves.
\<close>

type_synonym vector = "real list"

record embedding_row =
  pe_project_id :: string
  pe_knowledge_id :: string
  pe_content_chunk :: string
  pe_embedding :: vector
  pe_chunk_index :: nat
  pe_created_at :: string

record knowledge_record =
  pk_id :: string
  pk_project_id :: string
  pk_file_path :: string
  pk_file_name :: string
  pk_processed :: bool
  pk_processed_at :: "string option"
  pk_chunks_count :: "nat option"
  pk_processing_error :: "string option"

text \<open>
  The state the program acts on: the two tables, the local file system (path to bytes),
  the lines printed, and a clock that counts the calls made to the outside so far.
\<close>

record world =
  project_knowledge :: "knowledge_record list"
  project_embeddings :: "embedding_row list"
  files :: "string \<rightharpoonup> string"
  stdout :: "string list"
  clock :: nat

text \<open>
  What the outside answers is not in the repository, so it is a parameter: for each call
  the program makes, whether it raises and what it returns, as a function of the moment
  of the call (the clock) and of its arguments. \<open>embeddings_create\<close> is the body of the
  \<open>try\<close> of lines 33 to 37 (the request and the reading of \<open>response.data\<close>);
  \<open>storage_download\<close> returns \<open>None\<close> or the bytes; \<open>pdf_open\<close> stands for the import
  of pdfplumber and \<open>pdfplumber.open\<close> on the bytes of the file, and gives for every page
  what \<open>extract_text\<close> does on it (raise, \<open>None\<close>, or a text); the others say whether
  the write, the removal, the insert, the update and the select raise.
\<close>

record services =
  embeddings_create :: "nat \<Rightarrow> string list \<Rightarrow> exn + vector list"
  storage_download :: "nat \<Rightarrow> string \<Rightarrow> exn + string option"
  file_write :: "nat \<Rightarrow> string \<Rightarrow> string \<Rightarrow> exn option"
  pdf_open :: "nat \<Rightarrow> string \<Rightarrow> exn + (exn + string option) list"
  os_remove :: "nat \<Rightarrow> string \<Rightarrow> exn option"
  db_insert :: "nat \<Rightarrow> embedding_row \<Rightarrow> exn option"
  db_update :: "nat \<Rightarrow> string \<Rightarrow> exn option"
  db_select :: "nat \<Rightarrow> exn option"

definition print :: "string \<Rightarrow> world \<Rightarrow> world" where
  "print line w = w\<lparr>stdout := stdout w @ [line]\<rparr>"

definition tick :: "world \<Rightarrow> world" where
  "tick w = w\<lparr>clock := clock w + 1\<rparr>"

section \<open>The embedding client\<close>

text \<open>
  \<open>embed_texts\<close>, lines 26 to 45. \<open>range_step n 100\<close> is \<open>range(0, n, 100)\<close>;
  \<open>embed_batch\<close> is one turn of the loop for the index \<open>i\<close>. \<open>np_array\<close> is
  \<open>np.array\<close> on a list of rows: it raises on rows of different lengths (NumPy from
  1.24 on) and otherwise keeps the rows.
\<close>

definition range_step :: "nat \<Rightarrow> nat \<Rightarrow> nat list" where
  "range_step n step = map (\<lambda>k. k * step) [0..<(n + step - 1) div step]"

definition zero_vector :: vector where
  "zero_vector = replicate 1536 0"

definition embed_batch :: "services \<Rightarrow> string list \<Rightarrow> vector list \<times> world \<Rightarrow> nat \<Rightarrow> vector list \<times> world" where
  "embed_batch sv texts st i =
     (case st of (embeddings, w) \<Rightarrow>
        (let batch = take 100 (drop i texts) in
         case embeddings_create sv (clock w) batch of
           Inr batch_embeddings \<Rightarrow>
             (embeddings @ batch_embeddings,
              print (''Processed batch '' @ str_nat (i div 100 + 1) @ '', got '' @
                     str_nat (length batch_embeddings) @ '' embeddings'') (tick w))
         | Inl e \<Rightarrow>
             (embeddings @ replicate (length batch) zero_vector,
              print (''Error processing batch '' @ str_nat (i div 100 + 1) @ '': '' @ str_exn e)
                (tick w))))"

definition np_array :: "vector list \<Rightarrow> exn + vector list" where
  "np_array rows =
     (if list_all (\<lambda>r. length r = length (hd rows)) rows then Inr rows
      else Inl (Exception ''setting an array element with a sequence. The requested array has an inhomogeneous shape''))"

definition embed_texts :: "services \<Rightarrow> string list \<Rightarrow> world \<Rightarrow> (exn + vector list) \<times> world" where
  "embed_texts sv texts w =
     (case foldl (embed_batch sv texts) ([], w) (range_step (length texts) 100) of
        (embeddings, w') \<Rightarrow> (np_array embeddings, w'))"

section \<open>The PDF content fetcher\<close>

text \<open>
  \<open>get_pdf_content_from_supabase\<close>, lines 56 to 87. \<open>get_pdf_content_body\<close> is the body
  of the \<open>try\<close> (lines 59 to 83), \<open>extract_pages\<close> the loop over the pages (lines 75
  to 78), \<open>basename\<close> is \<open>os.path.basename\<close>. A write that raises is taken to leave
  the file system as it was.
\<close>

definition basename :: "string \<Rightarrow> string" where
  "basename p = rev (takeWhile (\<lambda>c. c \<noteq> CHR ''/'') (rev p))"

fun extract_pages :: "(exn + string option) list \<Rightarrow> string \<Rightarrow> exn + string" where
  "extract_pages [] text_content = Inr text_content"
| "extract_pages (page # pages) text_content =
     (case page of
        Inl e \<Rightarrow> Inl e
      | Inr None \<Rightarrow> extract_pages pages text_content
      | Inr (Some page_text) \<Rightarrow>
          if page_text \<noteq> [] then extract_pages pages (text_content @ page_text @ [CHR 0x0A])
          else extract_pages pages text_content)"

definition get_pdf_content_body :: "services \<Rightarrow> string \<Rightarrow> world \<Rightarrow> (exn + string) \<times> world" where
  "get_pdf_content_body sv file_path w =
     (case storage_download sv (clock w) file_path of
        Inl e \<Rightarrow> (Inl e, tick w)
      | Inr None \<Rightarrow> (Inl (Exception ''Failed to download file from Supabase''), tick w)
      | Inr (Some response) \<Rightarrow>
          (let w1 = tick w;
               temp_path = ''temp_'' @ basename file_path
           in case file_write sv (clock w1) temp_path response of
                Some e \<Rightarrow> (Inl e, tick w1)
              | None \<Rightarrow>
                  (let w2 = tick (w1\<lparr>files := (files w1)(temp_path \<mapsto> response)\<rparr>)
                   in case files w2 temp_path of
                        None \<Rightarrow> (Inl (Exception ''No such file or directory''), w2)
                      | Some data \<Rightarrow>
                          (case pdf_open sv (clock w2) data of
                             Inl e \<Rightarrow> (Inl e, tick w2)
                           | Inr pages \<Rightarrow>
                               (let w3 = tick w2
                                in case extract_pages pages [] of
                                     Inl e \<Rightarrow> (Inl e, w3)
                                   | Inr text_content \<Rightarrow>
                                       (case os_remove sv (clock w3) temp_path of
                                          Some e \<Rightarrow> (Inl e, tick w3)
                                        | None \<Rightarrow>
                                            (Inr text_content,
                                             tick (w3\<lparr>files := (files w3)(temp_path := None)\<rparr>))))))))"

definition get_pdf_content_from_supabase :: "services \<Rightarrow> string \<Rightarrow> world \<Rightarrow> (exn + string) \<times> world" where
  "get_pdf_content_from_supabase sv file_path w =
     (case get_pdf_content_body sv file_path w of
        (Inr text_content, w') \<Rightarrow> (Inr text_content, w')
      | (Inl e, w') \<Rightarrow> (Inr [], print (''Error extracting PDF content: '' @ str_exn e) w'))"

section \<open>The orchestrator\<close>

text \<open>
  \<open>update_knowledge\<close> is \<open>supabase.table('project_knowledge').update(..).eq('id', ..)
  .execute()\<close>: it raises, or it changes the given columns of every row with that id and
  leaves the other columns alone. \<open>store_chunks\<close> is the loop of lines 137 to 152 over
  \<open>enumerate(zip(text_chunks, embeddings))\<close>, \<open>process_body\<close> the body of the \<open>try\<close>
  of lines 115 to 161, and \<open>process_pdf_and_store_embeddings\<close> adds the handler of lines
  163 to 170.
\<close>

definition update_knowledge ::
  "services \<Rightarrow> string \<Rightarrow> (knowledge_record \<Rightarrow> knowledge_record) \<Rightarrow> world \<Rightarrow> exn option \<times> world" where
  "update_knowledge sv knowledge_id columns w =
     (case db_update sv (clock w) knowledge_id of
        Some e \<Rightarrow> (Some e, tick w)
      | None \<Rightarrow>
          (None,
           tick (w\<lparr>project_knowledge :=
                    map (\<lambda>r. if pk_id r = knowledge_id then columns r else r) (project_knowledge w)\<rparr>)))"

fun store_chunks ::
  "services \<Rightarrow> string \<Rightarrow> string \<Rightarrow> nat \<Rightarrow> (nat \<times> string \<times> vector) list \<Rightarrow> world \<Rightarrow> world" where
  "store_chunks sv project_id knowledge_id n [] w = w"
| "store_chunks sv project_id knowledge_id n ((i, chunk, embedding) # rest) w =
     (let row = \<lparr>pe_project_id = project_id, pe_knowledge_id = knowledge_id,
                 pe_content_chunk = chunk, pe_embedding = embedding,
                 pe_chunk_index = i, pe_created_at = ''now()''\<rparr>
      in case db_insert sv (clock w) row of
           None \<Rightarrow>
             store_chunks sv project_id knowledge_id n rest
               (print (''Stored chunk '' @ str_nat (i + 1) @ ''/'' @ str_nat n)
                  (tick (w\<lparr>project_embeddings := project_embeddings w @ [row]\<rparr>)))
         | Some e \<Rightarrow>
             store_chunks sv project_id knowledge_id n rest
               (print (''Error storing chunk '' @ str_nat i @ '': '' @ str_exn e) (tick w)))"

definition enumerate_zip :: "string list \<Rightarrow> vector list \<Rightarrow> (nat \<times> string \<times> vector) list" where
  "enumerate_zip text_chunks embeddings =
     zip [0..<length (zip text_chunks embeddings)] (zip text_chunks embeddings)"

definition process_body ::
  "services \<Rightarrow> string \<Rightarrow> string \<Rightarrow> string \<Rightarrow> string \<Rightarrow> world \<Rightarrow> (exn + unit) \<times> world" where
  "process_body sv project_id knowledge_id file_path file_name w =
     (case get_pdf_content_from_supabase sv file_path
             (print ''Extracting text from PDF...'' (print (''Processing PDF: '' @ file_name) w)) of
        (Inl e, w1) \<Rightarrow> (Inl e, w1)
      | (Inr text_content, w1) \<Rightarrow>
          if text_content = [] then (Inl (Exception ''No text content extracted from PDF''), w1)
          else
            (let text_chunks = split_into_chunks text_content 1000 200
             in case embed_texts sv text_chunks
                       (print ''Generating embeddings...''
                         (print (''Created '' @ str_nat (length text_chunks) @ '' chunks'')
                           (print ''Splitting text into chunks...''
                             (print (''Extracted '' @ str_nat (length text_content) @
                                     '' characters of text'') w1)))) of
                  (Inl e, w2) \<Rightarrow> (Inl e, w2)
                | (Inr embeddings, w2) \<Rightarrow>
                    (let w3 = store_chunks sv project_id knowledge_id (length text_chunks)
                                (enumerate_zip text_chunks embeddings)
                                (print ''Storing embeddings in database...'' w2);
                         w4 = print (''Successfully processed and stored embeddings for '' @ file_name) w3
                     in case update_knowledge sv knowledge_id
                               (\<lambda>r. r\<lparr>pk_processed := True, pk_processed_at := Some ''now()'',
                                       pk_chunks_count := Some (length text_chunks)\<rparr>) w4 of
                          (Some e, w5) \<Rightarrow> (Inl e, w5)
                        | (None, w5) \<Rightarrow> (Inr (), w5))))"

definition process_pdf_and_store_embeddings ::
  "services \<Rightarrow> string \<Rightarrow> string \<Rightarrow> string \<Rightarrow> string \<Rightarrow> world \<Rightarrow> (exn + unit) \<times> world" where
  "process_pdf_and_store_embeddings sv project_id knowledge_id file_path file_name w =
     (case process_body sv project_id knowledge_id file_path file_name w of
        (Inr u, w') \<Rightarrow> (Inr u, w')
      | (Inl e, w') \<Rightarrow>
          (case update_knowledge sv knowledge_id
                  (\<lambda>r. r\<lparr>pk_processed := False, pk_processing_error := Some (str_exn e)\<rparr>)
                  (print (''Error processing PDF: '' @ str_exn e) w') of
             (Some e', w'') \<Rightarrow> (Inl e', w'')
           | (None, w'') \<Rightarrow> (Inl e, w'')))"

text \<open>
  \<open>get_unprocessed_pdfs\<close>, lines 172 to 179, and \<open>process_all_unprocessed_pdfs\<close>, lines
  181 to 195: \<open>process_record\<close> is one turn of its loop, the \<open>try\<close> with its handler,
  and \<open>process_records\<close> the loop, which would stop at an exception of a turn.
\<close>

definition get_unprocessed_pdfs :: "services \<Rightarrow> world \<Rightarrow> (exn + knowledge_record list) \<times> world" where
  "get_unprocessed_pdfs sv w =
     (case db_select sv (clock w) of
        None \<Rightarrow> (Inr (filter (\<lambda>r. \<not> pk_processed r) (project_knowledge w)), tick w)
      | Some e \<Rightarrow> (Inr [], print (''Error fetching unprocessed PDFs: '' @ str_exn e) (tick w)))"

definition process_record :: "services \<Rightarrow> knowledge_record \<Rightarrow> world \<Rightarrow> (exn + unit) \<times> world" where
  "process_record sv pdf_record w =
     (case process_pdf_and_store_embeddings sv (pk_project_id pdf_record) (pk_id pdf_record)
             (pk_file_path pdf_record) (pk_file_name pdf_record) w of
        (Inr u, w') \<Rightarrow> (Inr (), w')
      | (Inl e, w') \<Rightarrow>
          (Inr (), print (''Failed to process '' @ pk_file_name pdf_record @ '': '' @ str_exn e) w'))"

fun process_records :: "services \<Rightarrow> knowledge_record list \<Rightarrow> world \<Rightarrow> (exn + unit) \<times> world" where
  "process_records sv [] w = (Inr (), w)"
| "process_records sv (pdf_record # rest) w =
     (case process_record sv pdf_record w of
        (Inl e, w') \<Rightarrow> (Inl e, w')
      | (Inr u, w') \<Rightarrow> process_records sv rest w')"

definition process_all_unprocessed_pdfs :: "services \<Rightarrow> world \<Rightarrow> (exn + unit) \<times> world" where
  "process_all_unprocessed_pdfs sv w =
     (case get_unprocessed_pdfs sv w of
        (Inl e, w1) \<Rightarrow> (Inl e, w1)
      | (Inr unprocessed_pdfs, w1) \<Rightarrow>
          process_records sv unprocessed_pdfs
            (print (''Found '' @ str_nat (length unprocessed_pdfs) @ '' unprocessed PDFs'') w1))"

section \<open>Concrete scenarios\<close>

text \<open>
  An outside where every call succeeds: the stored file is a PDF of two pages with the
  texts \<open>Alpha. Beta.\<close> and \<open>Gamma.\<close>, and the embedding service answers every text
  with the same vector of dimension 1536. \<open>flaky_embeddings\<close> is the same outside, except
  that the embedding call made at clock 1 raises. \<open>retry_world\<close> holds one knowledge
  record, left unprocessed by an earlier attempt that recorded an error.
\<close>

definition ok_services :: services where
  "ok_services =
     \<lparr>embeddings_create = (\<lambda>t batch. Inr (map (\<lambda>x. replicate 1536 1) batch)),
      storage_download = (\<lambda>t p. Inr (Some ''%PDF-1.7'')),
      file_write = (\<lambda>t p d. None),
      pdf_open = (\<lambda>t d. Inr [Inr (Some ''Alpha. Beta.''), Inr (Some ''Gamma.'')]),
      os_remove = (\<lambda>t p. None),
      db_insert = (\<lambda>t r. None),
      db_update = (\<lambda>t k. None),
      db_select = (\<lambda>t. None)\<rparr>"

definition flaky_embeddings :: services where
  "flaky_embeddings =
     ok_services\<lparr>embeddings_create :=
       (\<lambda>t batch. if t = 1 then Inl (Exception ''rate limit'')
                   else Inr (map (\<lambda>x. replicate 1536 1) batch))\<rparr>"

text \<open>\<open>broken_pdf\<close>: the stored bytes are not a PDF, so that opening them raises.\<close>

definition broken_pdf :: services where
  "broken_pdf = ok_services\<lparr>pdf_open := (\<lambda>t d. Inl (Exception ''No /Root object! - Is this really a PDF?''))\<rparr>"

text \<open>
  \<open>missing_file\<close>: every download yields \<open>None\<close>. \<open>second_missing\<close>: the download of
  \<open>b.pdf\<close> yields \<open>None\<close>, the others succeed. \<open>queue_world\<close> holds three unprocessed
  records, for \<open>a.pdf\<close>, \<open>b.pdf\<close> and \<open>c.pdf\<close>.
\<close>

definition missing_file :: services where
  "missing_file = ok_services\<lparr>storage_download := (\<lambda>t p. Inr None)\<rparr>"

definition second_missing :: services where
  "second_missing =
     ok_services\<lparr>storage_download :=
       (\<lambda>t p. if p = ''p1/spec/b.pdf'' then Inr None else Inr (Some ''%PDF-1.7''))\<rparr>"

definition queue_world :: world where
  "queue_world =
     \<lparr>project_knowledge =
        [\<lparr>pk_id = ''k1'', pk_project_id = ''p1'', pk_file_path = ''p1/spec/a.pdf'',
          pk_file_name = ''a.pdf'', pk_processed = False, pk_processed_at = None,
          pk_chunks_count = None, pk_processing_error = None\<rparr>,
         \<lparr>pk_id = ''k2'', pk_project_id = ''p1'', pk_file_path = ''p1/spec/b.pdf'',
          pk_file_name = ''b.pdf'', pk_processed = False, pk_processed_at = None,
          pk_chunks_count = None, pk_processing_error = None\<rparr>,
         \<lparr>pk_id = ''k3'', pk_project_id = ''p1'', pk_file_path = ''p1/spec/c.pdf'',
          pk_file_name = ''c.pdf'', pk_processed = False, pk_processed_at = None,
          pk_chunks_count = None, pk_processing_error = None\<rparr>],
      project_embeddings = [], files = Map.empty, stdout = [], clock = 0\<rparr>"

definition retry_world :: world where
  "retry_world =
     \<lparr>project_knowledge =
        [\<lparr>pk_id = ''k1'', pk_project_id = ''p1'', pk_file_path = ''p1/spec/a.pdf'',
          pk_file_name = ''a.pdf'', pk_processed = False, pk_processed_at = None,
          pk_chunks_count = None, pk_processing_error = Some ''old error''\<rparr>],
      project_embeddings = [], files = Map.empty, stdout = [], clock = 0\<rparr>"

section \<open>Notions used to state the chunker's properties\<close>

text \<open>
  \<open>sentence_unit s\<close> is the value of the loop variable \<open>sentence\<close> after line 97: the
  split unit trimmed, followed by period and space. \<open>render g\<close> is the chunk emitted for a
  run \<open>g\<close> of consecutive split units. \<open>group_loop\<close> is the loop of lines 96 to 104 read
  on split units instead of characters: it yields the runs that were closed and the run
  still open. \<open>contains_sep\<close> is Python's \<open>'. ' in text\<close>.
\<close>

definition sentence_unit :: "string \<Rightarrow> string" where
  "sentence_unit s = strip s @ ''. ''"

definition render :: "string list \<Rightarrow> string" where
  "render g = strip (concat (map sentence_unit g))"

fun group_loop :: "int \<Rightarrow> string list \<Rightarrow> string list list \<times> string list \<Rightarrow> string list list \<times> string list" where
  "group_loop m [] st = st"
| "group_loop m (s # ss) (groups, g) =
     (if int (length (concat (map sentence_unit g))) + int (length (sentence_unit s)) > m
      then group_loop m ss (if g \<noteq> [] then groups @ [g] else groups, [s])
      else group_loop m ss (groups, g @ [s]))"

fun contains_sep :: "string \<Rightarrow> bool" where
  "contains_sep [] = False"
| "contains_sep [c] = False"
| "contains_sep (c # d # cs) = ((c = CHR ''.'' \<and> d = CHR '' '') \<or> contains_sep (d # cs))"

definition final_groups :: "int \<Rightarrow> string list \<Rightarrow> string list list" where
  "final_groups m ss = (case group_loop m ss ([], []) of (groups, g) \<Rightarrow> if g \<noteq> [] then groups @ [g] else groups)"

text \<open>
  \<open>batch_result sv w texts k\<close> is what the \<open>k\<close>-th turn of the loop of \<open>embed_texts\<close>
  appends when the loop starts in the world \<open>w\<close>: the vectors returned for the texts
  \<open>texts[100k : 100k + 100]\<close>, or one zero vector for each of them.
\<close>

definition batch_result :: "services \<Rightarrow> world \<Rightarrow> string list \<Rightarrow> nat \<Rightarrow> vector list" where
  "batch_result sv w texts k =
     (case embeddings_create sv (clock w + k) (take 100 (drop (k * 100) texts)) of
        Inr vs \<Rightarrow> vs
      | Inl e \<Rightarrow> replicate (length (take 100 (drop (k * 100) texts))) (replicate 1536 0))"

section \<open>Trimming, splitting and the runs of split units\<close>

lemma isspace_space: "isspace CHR '' ''"
  by (simp add: isspace_def)

lemma not_isspace_dot: "\<not> isspace CHR ''.''"
  by (simp add: isspace_def)

lemma strip_Nil: "strip [] = []"
  by (simp add: strip_def)

lemma strip_decomp: "dropWhile isspace s = strip s @ rev (takeWhile isspace (rev (dropWhile isspace s)))"
proof -
  let ?xs = "rev (dropWhile isspace s)"
  have "rev (dropWhile isspace ?xs) @ rev (takeWhile isspace ?xs) =
        rev (takeWhile isspace ?xs @ dropWhile isspace ?xs)"
    by (simp only: rev_append)
  also have "\<dots> = rev ?xs" by (simp only: takeWhile_dropWhile_id)
  finally show ?thesis by (simp add: strip_def)
qed

lemma hd_strip: "strip s \<noteq> [] \<Longrightarrow> \<not> isspace (hd (strip s))"
proof -
  assume ne: "strip s \<noteq> []"
  have "hd (dropWhile isspace s) = hd (strip s)"
    using ne strip_decomp [of s] by (metis hd_append2)
  moreover have "dropWhile isspace s \<noteq> []"
    using ne strip_decomp [of s] by (metis append_is_Nil_conv)
  ultimately show ?thesis using hd_dropWhile by metis
qed

lemma strip_clean: "y \<noteq> [] \<Longrightarrow> \<not> isspace (hd y) \<Longrightarrow> \<not> isspace (last y) \<Longrightarrow> strip y = y"
proof -
  assume a: "y \<noteq> []" "\<not> isspace (hd y)" "\<not> isspace (last y)"
  have 1: "dropWhile isspace y = y" using a by (cases y) auto
  have "rev y \<noteq> []" "\<not> isspace (hd (rev y))" using a by (auto simp: hd_rev)
  then have 2: "dropWhile isspace (rev y) = rev y" by (cases "rev y") auto
  show ?thesis by (simp add: strip_def 1 2)
qed

lemma strip_trailing_space: "y \<noteq> [] \<Longrightarrow> \<not> isspace (hd y) \<Longrightarrow> \<not> isspace (last y) \<Longrightarrow> strip (y @ '' '') = y"
proof -
  assume a: "y \<noteq> []" "\<not> isspace (hd y)" "\<not> isspace (last y)"
  have 1: "dropWhile isspace (y @ '' '') = y @ '' ''" using a by (cases y) auto
  have "rev y \<noteq> []" "\<not> isspace (hd (rev y))" using a by (auto simp: hd_rev)
  then have 2: "dropWhile isspace (rev y) = rev y" by (cases "rev y") auto
  show ?thesis by (simp add: strip_def 1 2 isspace_space)
qed

lemma units_shape:
  "g \<noteq> [] \<Longrightarrow> \<exists>z. concat (map sentence_unit g) = z @ ''. '' \<and> \<not> isspace (hd (z @ ''.''))"
proof (induction g rule: rev_induct)
  case Nil then show ?case by simp
next
  case (snoc s g)
  show ?case
  proof (cases "g = []")
    case True
    have "\<not> isspace (hd (strip s @ ''.''))"
      using hd_strip [of s] by (cases "strip s") (auto simp: not_isspace_dot)
    then show ?thesis using True by (auto simp: sentence_unit_def)
  next
    case False
    then obtain z where z: "concat (map sentence_unit g) = z @ ''. ''" "\<not> isspace (hd (z @ ''.''))"
      using snoc.IH by blast
    have "concat (map sentence_unit (g @ [s])) = (z @ ''. '' @ strip s) @ ''. ''"
      using z by (simp add: sentence_unit_def)
    moreover have "hd ((z @ ''. '' @ strip s) @ ''.'') = hd (z @ ''.'')"
      by (cases z) auto
    ultimately show ?thesis using z(2) by metis
  qed
qed

lemma render_shape:
  assumes "g \<noteq> []"
  shows "render g @ '' '' = concat (map sentence_unit g)"
    and "render g \<noteq> []" and "last (render g) = CHR ''.''" and "\<not> isspace (hd (render g))"
proof -
  obtain z where z: "concat (map sentence_unit g) = z @ ''. ''" "\<not> isspace (hd (z @ ''.''))"
    using units_shape [OF assms] by blast
  have "strip ((z @ ''.'') @ '' '') = z @ ''.''"
    by (rule strip_trailing_space) (use z in \<open>auto simp: not_isspace_dot\<close>)
  then have r: "render g = z @ ''.''" using z by (simp add: render_def)
  show "render g @ '' '' = concat (map sentence_unit g)" using r z by simp
  show "render g \<noteq> []" using r by simp
  show "last (render g) = CHR ''.''" using r by simp
  show "\<not> isspace (hd (render g))" using r z by simp
qed

lemma render_Nil: "render [] = []"
  by (simp add: render_def strip_def)

lemma render_eq_Nil: "render g = [] \<longleftrightarrow> g = []"
  using render_shape(2) [of g] render_Nil by auto

lemma chunk_loop_groups:
  "chunk_loop m ss (map render groups, concat (map sentence_unit g)) =
     (case group_loop m ss (groups, g) of
        (groups', g') \<Rightarrow> (map render groups', concat (map sentence_unit g')))"
proof (induction ss arbitrary: groups g)
  case Nil
  then show ?case by simp
next
  case (Cons s ss)
  have u: "strip s @ ''. '' = sentence_unit s" by (simp add: sentence_unit_def)
  have r: "strip (concat (map sentence_unit g)) = render g" by (simp add: render_def)
  show ?case
  proof (cases "int (length (concat (map sentence_unit g))) + int (length (sentence_unit s)) > m")
    case True
    show ?thesis
    proof (cases "g = []")
      case True
      with \<open>_ > m\<close> Cons.IH [of groups "[s]"] show ?thesis
        by (simp add: u strip_Nil)
    next
      case False
      with \<open>_ > m\<close> Cons.IH [of "groups @ [g]" "[s]"] show ?thesis
        by (simp add: u r render_eq_Nil)
    qed
  next
    case False
    with Cons.IH [of groups "g @ [s]"] show ?thesis
      by (simp add: u)
  qed
qed

lemma split_into_chunks_groups:
  "split_into_chunks text m ov = map render (final_groups m (str_split text))"
proof -
  obtain groups g where gl: "group_loop m (str_split text) ([], []) = (groups, g)"
    by (cases "group_loop m (str_split text) ([], [])")
  have "chunk_loop m (str_split text) ([], []) = (map render groups, concat (map sentence_unit g))"
    using chunk_loop_groups [of m "str_split text" "[]" "[]"] gl by simp
  moreover have "strip (concat (map sentence_unit g)) = render g" by (simp add: render_def)
  ultimately show ?thesis
    using gl by (simp add: split_into_chunks_def final_groups_def render_eq_Nil)
qed

lemma group_loop_concat:
  "group_loop m ss (groups, g) = (groups', g') \<Longrightarrow> concat groups' @ g' = concat groups @ g @ ss"
  by (induction ss arbitrary: groups g) (auto split: if_splits)

lemma group_loop_nonempty:
  "group_loop m ss (groups, g) = (groups', g') \<Longrightarrow> [] \<notin> set groups \<Longrightarrow> [] \<notin> set groups'"
  by (induction ss arbitrary: groups g) (auto split: if_splits)

lemma group_loop_bound:
  "group_loop m ss (groups, g) = (groups', g') \<Longrightarrow>
   (\<forall>x \<in> set groups. 2 \<le> length x \<longrightarrow> int (length (concat (map sentence_unit x))) \<le> m) \<Longrightarrow>
   (2 \<le> length g \<longrightarrow> int (length (concat (map sentence_unit g))) \<le> m) \<Longrightarrow>
   (\<forall>x \<in> set groups'. 2 \<le> length x \<longrightarrow> int (length (concat (map sentence_unit x))) \<le> m) \<and>
   (2 \<le> length g' \<longrightarrow> int (length (concat (map sentence_unit g'))) \<le> m)"
proof (induction ss arbitrary: groups g)
  case Nil
  then show ?case by simp
next
  case (Cons s ss)
  show ?case
  proof (cases "int (length (concat (map sentence_unit g))) + int (length (sentence_unit s)) > m")
    case True
    with Cons.prems have "group_loop m ss (if g \<noteq> [] then groups @ [g] else groups, [s]) = (groups', g')"
      by simp
    then show ?thesis
      by (rule Cons.IH) (use Cons.prems in auto)
  next
    case False
    with Cons.prems have "group_loop m ss (groups, g @ [s]) = (groups', g')"
      by simp
    then show ?thesis
      by (rule Cons.IH) (use Cons.prems False in auto)
  qed
qed

lemma final_groups_concat: "concat (final_groups m ss) = ss"
proof -
  obtain groups g where gl: "group_loop m ss ([], []) = (groups, g)"
    by (cases "group_loop m ss ([], [])")
  from group_loop_concat [OF gl] gl show ?thesis
    by (auto simp: final_groups_def)
qed

lemma final_groups_nonempty: "[] \<notin> set (final_groups m ss)"
proof -
  obtain groups g where gl: "group_loop m ss ([], []) = (groups, g)"
    by (cases "group_loop m ss ([], [])")
  from group_loop_nonempty [OF gl] gl show ?thesis
    by (simp add: final_groups_def)
qed

lemma final_groups_bound:
  assumes "x \<in> set (final_groups m ss)" and "2 \<le> length x"
  shows "int (length (concat (map sentence_unit x))) \<le> m"
proof -
  obtain groups g where gl: "group_loop m ss ([], []) = (groups, g)"
    by (cases "group_loop m ss ([], [])")
  have "(\<forall>x \<in> set groups. 2 \<le> length x \<longrightarrow> int (length (concat (map sentence_unit x))) \<le> m) \<and>
        (2 \<le> length g \<longrightarrow> int (length (concat (map sentence_unit g))) \<le> m)"
    by (rule group_loop_bound [OF gl]) simp_all
  moreover have "x \<in> set groups \<or> x = g"
    using assms(1) gl by (auto simp: final_groups_def split: if_splits)
  ultimately show ?thesis using assms(2) by blast
qed


lemma str_split_no_sep: "\<not> contains_sep t \<Longrightarrow> str_split t = [t]"
  by (induction t rule: str_split.induct) auto



lemma str_split_not_Nil: "str_split t \<noteq> []"
  by (induction t rule: str_split.induct) (auto split: list.splits)


lemma strip_infix: "\<exists>a b. s = a @ strip s @ b"
proof -
  have "s = takeWhile isspace s @ dropWhile isspace s" by simp
  then have "s = takeWhile isspace s @ strip s @ rev (takeWhile isspace (rev (dropWhile isspace s)))"
    using strip_decomp [of s] by simp
  then show ?thesis by blast
qed

lemma length_strip_le: "length (strip s) \<le> length s"
proof -
  obtain a b where "s = a @ strip s @ b" using strip_infix by blast
  then have "length s = length a + length (strip s) + length b"
    by (metis length_append add.assoc)
  then show ?thesis by simp
qed




section \<open>Properties of the chunker\<close>

text \<open>
  Claim C10. For every input text, the empty string and texts without a period included,
  every chunk returned by \<open>split_into_chunks\<close> is non-empty after trimming and ends with
  the character \<open>.\<close>, because line 97 appends period and space to every split unit before
  it is accumulated. The result is moreover never the empty list.
\<close>

theorem chunks_end_with_period:
  "split_into_chunks text m ov \<noteq> [] \<and>
   (\<forall>c \<in> set (split_into_chunks text m ov). strip c \<noteq> [] \<and> last c = CHR ''.'')"
proof -
  have "final_groups m (str_split text) \<noteq> []"
    using final_groups_concat [of m "str_split text"] str_split_not_Nil [of "text"] by auto
  then have ne: "split_into_chunks text m ov \<noteq> []"
    by (simp add: split_into_chunks_groups)
  have "strip c \<noteq> [] \<and> last c = CHR ''.''" if "c \<in> set (split_into_chunks text m ov)" for c
  proof -
    from that obtain g where g: "g \<in> set (final_groups m (str_split text))" "c = render g"
      by (auto simp: split_into_chunks_groups)
    then have "g \<noteq> []" using final_groups_nonempty [of m "str_split text"] by auto
    note sh = render_shape [OF this]
    have "strip (render g) = render g"
      by (rule strip_clean) (use sh in \<open>auto simp: not_isspace_dot\<close>)
    then show ?thesis using sh g by simp
  qed
  with ne show ?thesis by blast
qed

theorem chunks_end_with_period_witness:
  "''.'' \<in> set (split_into_chunks '''' 1000 200) \<and> strip ''.'' \<noteq> [] \<and> last ''.'' = CHR ''.''"
proof -
  have m: "''.'' \<in> set (split_into_chunks '''' 1000 200)"
    by code_simp
  from chunks_end_with_period [of "''''" 1000 200] m
  have "strip ''.'' \<noteq> [] \<and> last ''.'' = CHR ''.''" by blast
  with m show ?thesis by blast
qed

text \<open>
  Claim C5, as amended. For every input text and every \<open>max_chunk_size\<close>, every chunk
  returned has length at most \<open>max_chunk_size\<close>, unless the chunk consists of exactly one
  sentence whose own length is at least \<open>max_chunk_size\<close>: such a chunk is that sentence
  trimmed and followed by the period of line 97. No sentence is cut. The claim as written
  asks for a sentence longer than \<open>max_chunk_size\<close>: the appended period counts in the
  chunk and not in the sentence, so a sentence of exactly \<open>max_chunk_size\<close> characters,
  alone in its chunk, already gives a chunk of \<open>max_chunk_size + 1\<close>.
\<close>

theorem chunk_length_bound:
  "c \<in> set (split_into_chunks text m ov) \<Longrightarrow>
     int (length c) \<le> m \<or>
     (\<exists>s \<in> set (str_split text).
         c = strip s @ ''.'' \<and> m \<le> int (length (strip s)) \<and> length (strip s) \<le> length s)"
proof -
  assume "c \<in> set (split_into_chunks text m ov)"
  then obtain g where g: "g \<in> set (final_groups m (str_split text))" "c = render g"
    by (auto simp: split_into_chunks_groups)
  then have ne: "g \<noteq> []" using final_groups_nonempty [of m "str_split text"] by auto
  have len: "length (render g) + 1 = length (concat (map sentence_unit g))"
    using render_shape(1) [OF ne] by (metis length_append_singleton Suc_eq_plus1)
  show ?thesis
  proof (cases "2 \<le> length g")
    case True
    from final_groups_bound [OF g(1) True] len g(2) show ?thesis by simp
  next
    case False
    with ne obtain s where s: "g = [s]" by (cases g) (auto simp: not_less_eq_eq)
    have "[s] \<in> set (final_groups m (str_split text))" using g(1) s by simp
    then have "s \<in> set (concat (final_groups m (str_split text)))"
      by (simp only: set_concat) force
    then have mem: "s \<in> set (str_split text)" by (simp add: final_groups_concat)
    have "render [s] @ '' '' = (strip s @ ''.'') @ '' ''"
      using render_shape(1) [of "[s]"] by (simp add: sentence_unit_def)
    then have c: "c = strip s @ ''.''" using g(2) s by simp
    show ?thesis
    proof (cases "int (length c) \<le> m")
      case True then show ?thesis by simp
    next
      case False
      then have "m \<le> int (length (strip s))" using c by simp
      with mem c length_strip_le [of s] show ?thesis by blast
    qed
  qed
qed

theorem chunk_length_bound_witness:
  "''abcde.'' \<in> set (split_into_chunks ''abcde'' 5 200) \<and>
   (int (length ''abcde.'') \<le> 5 \<or>
    (\<exists>s \<in> set (str_split ''abcde'').
        ''abcde.'' = strip s @ ''.'' \<and> 5 \<le> int (length (strip s)) \<and> length (strip s) \<le> length s))"
proof -
  have m: "''abcde.'' \<in> set (split_into_chunks ''abcde'' 5 200)"
    by code_simp
  from chunk_length_bound [OF m] m show ?thesis by blast
qed

theorem chunk_length_bound_counterexample:
  "split_into_chunks ''abcde'' 5 200 = [''abcde.''] \<and>
   str_split ''abcde'' = [''abcde''] \<and>
   \<not> int (length ''abcde.'') \<le> 5 \<and>
   \<not> 5 < int (length ''abcde'')"
  by code_simp


text \<open>
  Claim C2, as amended. The chunk of the empty string is the one-element sequence holding
  the string \<open>.\<close>, and the chunk of a text with no occurrence of period and space is exactly
  one chunk, the trimmed text followed by a period, whatever \<open>max_chunk_size\<close> is. The
  claim as written (an empty sequence, a chunk equal to the trimmed text) fails on both
  inputs it names, since line 97 appends the period to every unit, the only one included.
\<close>

theorem chunk_empty_and_unseparated:
  "split_into_chunks '''' m ov = [''.''] \<and>
   (\<not> contains_sep text \<longrightarrow> split_into_chunks text m ov = [strip text @ ''.''])"
proof -
  have one: "split_into_chunks t m ov = [strip t @ ''.'']" if "\<not> contains_sep t" for t
  proof -
    have "str_split t = [t]" using that by (rule str_split_no_sep)
    then have "final_groups m (str_split t) = [[t]]" by (simp add: final_groups_def)
    moreover have "render [t] @ '' '' = (strip t @ ''.'') @ '' ''"
      using render_shape(1) [of "[t]"] by (simp add: sentence_unit_def)
    ultimately show ?thesis by (simp add: split_into_chunks_groups)
  qed
  from one [of "''''"] have "split_into_chunks '''' m ov = [''.'']" by (simp add: strip_Nil)
  with one show ?thesis by blast
qed

theorem chunk_empty_and_unseparated_witness:
  "\<not> contains_sep ''short text'' \<and> split_into_chunks ''short text'' 1000 200 = [''short text.'']"
proof -
  have n: "\<not> contains_sep ''short text''" by simp
  have s: "strip ''short text'' = ''short text''" by code_simp
  from chunk_empty_and_unseparated [of 1000 200 "''short text''"] n
  have "split_into_chunks ''short text'' 1000 200 = [strip ''short text'' @ ''.'']" by blast
  with n s show ?thesis by simp
qed

theorem chunk_empty_and_unseparated_counterexample:
  "split_into_chunks '''' 1000 200 \<noteq> [] \<and>
   split_into_chunks ''short text'' 1000 200 \<noteq> [strip ''short text'']"
  by code_simp

section \<open>Properties of the embedding client\<close>

lemma clock_print [simp]: "clock (print line w) = clock w"
  by (simp add: print_def)

lemma clock_tick [simp]: "clock (tick w) = clock w + 1"
  by (simp add: tick_def)

lemma embed_batch_step:
  assumes "clock w' = clock w + j"
  shows "\<exists>w''. embed_batch sv texts (E, w') (j * 100) = (E @ batch_result sv w texts j, w'') \<and>
               clock w'' = clock w + Suc j"
  using assms
  by (auto simp: embed_batch_def batch_result_def zero_vector_def Let_def split: sum.splits)

lemma batch_result_shape:
  assumes "\<forall>t batch vs. embeddings_create sv t batch = Inr vs \<longrightarrow>
             length vs = length batch \<and> (\<forall>v \<in> set vs. length v = 1536)"
  shows "length (batch_result sv w texts k) = min 100 (length texts - k * 100)"
    and "\<forall>v \<in> set (batch_result sv w texts k). length v = 1536"
proof -
  show "length (batch_result sv w texts k) = min 100 (length texts - k * 100)"
    using assms by (auto simp: batch_result_def split: sum.splits)
  show "\<forall>v \<in> set (batch_result sv w texts k). length v = 1536"
    using assms by (auto simp: batch_result_def split: sum.splits)
qed

lemma slice_append_old:
  "(k + 1) * 100 \<le> length E \<Longrightarrow> take 100 (drop (k * 100) (E @ R)) = take 100 (drop (k * 100) E)"
  by simp

lemma slice_append_new:
  "length E = j * 100 \<Longrightarrow> length R \<le> 100 \<Longrightarrow> take 100 (drop (j * 100) (E @ R)) = R"
  by simp

lemma embed_loop_invariant:
  assumes contract: "\<forall>t batch vs. embeddings_create sv t batch = Inr vs \<longrightarrow>
             length vs = length batch \<and> (\<forall>v \<in> set vs. length v = 1536)"
  shows "j \<le> (length texts + 99) div 100 \<Longrightarrow>
         \<exists>E w'. foldl (embed_batch sv texts) ([], w) (map (\<lambda>k. k * 100) [0..<j]) = (E, w') \<and>
           length E = min (j * 100) (length texts) \<and> clock w' = clock w + j \<and>
           (\<forall>v \<in> set E. length v = 1536) \<and>
           (\<forall>k<j. take 100 (drop (k * 100) E) = batch_result sv w texts k)"
proof (induction j)
  case 0
  then show ?case by simp
next
  case (Suc j)
  then have lt: "j * 100 < length texts" by simp
  from Suc obtain E w' where
    st: "foldl (embed_batch sv texts) ([], w) (map (\<lambda>k. k * 100) [0..<j]) = (E, w')" and
    len: "length E = min (j * 100) (length texts)" and ck: "clock w' = clock w + j" and
    dim: "\<forall>v \<in> set E. length v = 1536" and
    sl: "\<forall>k<j. take 100 (drop (k * 100) E) = batch_result sv w texts k"
    by auto
  let ?R = "batch_result sv w texts j"
  obtain w'' where step: "embed_batch sv texts (E, w') (j * 100) = (E @ ?R, w'')"
    and ck': "clock w'' = clock w + Suc j"
    using embed_batch_step [OF ck] by blast
  have lenE: "length E = j * 100" using len lt by simp
  have lenR: "length ?R = min 100 (length texts - j * 100)"
    by (rule batch_result_shape(1) [OF contract])
  have dimR: "\<forall>v \<in> set ?R. length v = 1536"
    by (rule batch_result_shape(2) [OF contract])
  have fold: "foldl (embed_batch sv texts) ([], w) (map (\<lambda>k. k * 100) [0..<Suc j]) = (E @ ?R, w'')"
    using st step by simp
  have len': "length (E @ ?R) = min (Suc j * 100) (length texts)"
    using lenE lenR lt by simp
  have dim': "\<forall>v \<in> set (E @ ?R). length v = 1536" using dim dimR by auto
  have sl': "take 100 (drop (k * 100) (E @ ?R)) = batch_result sv w texts k" if "k < Suc j" for k
  proof (cases "k < j")
    case True
    then have "(k + 1) * 100 \<le> length E" using lenE by simp
    then have "take 100 (drop (k * 100) (E @ ?R)) = take 100 (drop (k * 100) E)"
      by (rule slice_append_old)
    with sl True show ?thesis by simp
  next
    case False
    with that have "k = j" by simp
    moreover have "take 100 (drop (j * 100) (E @ ?R)) = ?R"
      by (rule slice_append_new [OF lenE]) (simp add: lenR)
    ultimately show ?thesis by simp
  qed
  from fold len' ck' dim' sl' show ?case by blast
qed

lemma np_array_uniform: "\<forall>v \<in> set rows. length v = d \<Longrightarrow> np_array rows = Inr rows"
  by (cases rows) (auto simp: np_array_def list_all_iff)

text \<open>
  Claim C1. For every sequence of input texts, \<open>embed_texts\<close> returns without raising a
  sequence of vectors of the same length as the input and aligned with it: the inputs are
  cut into the consecutive batches \<open>texts[100k : 100k + 100]\<close>, sent one after the other,
  and the output positions \<open>100k\<close> to \<open>100k + 99\<close> hold the vectors the service returned
  for batch \<open>k\<close>, in order, or zero vectors of dimension 1536 when the call for batch
  \<open>k\<close> raised. The service is taken to keep its interface: a call that succeeds returns
  one vector of dimension 1536 for each text of the batch.
\<close>

theorem embed_texts_aligned:
  assumes "\<forall>t batch vs. embeddings_create sv t batch = Inr vs \<longrightarrow>
             length vs = length batch \<and> (\<forall>v \<in> set vs. length v = 1536)"
  shows "\<exists>out w'. embed_texts sv texts w = (Inr out, w') \<and> length out = length texts \<and>
           (\<forall>k. k * 100 < length texts \<longrightarrow>
              take 100 (drop (k * 100) out) =
                (case embeddings_create sv (clock w + k) (take 100 (drop (k * 100) texts)) of
                   Inr vs \<Rightarrow> vs
                 | Inl e \<Rightarrow> replicate (length (take 100 (drop (k * 100) texts))) (replicate 1536 0)))"
proof -
  let ?nb = "(length texts + 99) div 100"
  obtain E w' where
    st: "foldl (embed_batch sv texts) ([], w) (map (\<lambda>k. k * 100) [0..<?nb]) = (E, w')" and
    len: "length E = min (?nb * 100) (length texts)" and
    dim: "\<forall>v \<in> set E. length v = 1536" and
    sl: "\<forall>k<?nb. take 100 (drop (k * 100) E) = batch_result sv w texts k"
    using embed_loop_invariant [OF assms, of ?nb texts w] by auto
  have rs: "range_step (length texts) 100 = map (\<lambda>k. k * 100) [0..<?nb]"
    by (simp add: range_step_def add.commute)
  have "embed_texts sv texts w = (Inr E, w')"
    unfolding embed_texts_def rs st using np_array_uniform [OF dim] by simp
  moreover have "length E = length texts" using len by (simp add: min_def) arith
  moreover have "take 100 (drop (k * 100) E) = batch_result sv w texts k"
    if "k * 100 < length texts" for k
  proof -
    from that have "k < ?nb" by arith
    with sl show ?thesis by simp
  qed
  ultimately show ?thesis unfolding batch_result_def by blast
qed

theorem embed_texts_aligned_witness:
  "\<exists>out w'. embed_texts flaky_embeddings (replicate 300 ''chunk'') retry_world = (Inr out, w') \<and>
      length out = 300 \<and>
      take 100 out = replicate 100 (replicate 1536 1) \<and>
      take 100 (drop 100 out) = replicate 100 (replicate 1536 0) \<and>
      take 100 (drop 200 out) = replicate 100 (replicate 1536 1)"
proof -
  have contract: "\<forall>t batch vs. embeddings_create flaky_embeddings t batch = Inr vs \<longrightarrow>
      length vs = length batch \<and> (\<forall>v \<in> set vs. length v = 1536)"
    by (auto simp: flaky_embeddings_def ok_services_def)
  have c0: "clock retry_world = 0" by (simp add: retry_world_def)
  from embed_texts_aligned [OF contract, of "replicate 300 ''chunk''" retry_world]
  obtain out w' where
    r: "embed_texts flaky_embeddings (replicate 300 ''chunk'') retry_world = (Inr out, w')" and
    l: "length out = 300" and
    s: "\<forall>k. k * 100 < 300 \<longrightarrow>
          take 100 (drop (k * 100) out) =
            (case embeddings_create flaky_embeddings k (take 100 (drop (k * 100) (replicate 300 ''chunk''))) of
               Inr vs \<Rightarrow> vs
             | Inl e \<Rightarrow> replicate (length (take 100 (drop (k * 100) (replicate 300 ''chunk'')))) (replicate 1536 0))"
    by (auto simp: c0)
  from s [rule_format, of 0] have s0: "take 100 out = replicate 100 (replicate 1536 1)"
    by (simp add: flaky_embeddings_def ok_services_def)
  from s [rule_format, of 1] have s1: "take 100 (drop 100 out) = replicate 100 (replicate 1536 0)"
    by (simp add: flaky_embeddings_def ok_services_def)
  from s [rule_format, of 2] have s2: "take 100 (drop 200 out) = replicate 100 (replicate 1536 1)"
    by (simp add: flaky_embeddings_def ok_services_def)
  from r l s0 s1 s2 show ?thesis by blast
qed

section \<open>Properties of the PDF content fetcher\<close>

lemma extract_pages_raises:
  "Inl e \<in> set pages \<Longrightarrow> \<exists>e'. extract_pages pages text_content = Inl e'"
  by (induction pages arbitrary: text_content) (auto split: sum.splits option.splits)

lemma fetch_catches:
  "get_pdf_content_body sv file_path w = (Inl e, w') \<Longrightarrow>
   get_pdf_content_from_supabase sv file_path w =
     (Inr [], print (''Error extracting PDF content: '' @ str_exn e) w')"
  by (simp add: get_pdf_content_from_supabase_def)

lemma fetch_returns:
  "\<exists>t w'. get_pdf_content_from_supabase sv file_path w = (Inr t, w')"
proof (cases "get_pdf_content_body sv file_path w")
  case (Pair r w')
  then show ?thesis
    by (cases r) (simp_all add: get_pdf_content_from_supabase_def)
qed

lemma body_download_raises:
  "storage_download sv (clock w) file_path = Inl e \<Longrightarrow>
   \<exists>e' w'. get_pdf_content_body sv file_path w = (Inl e', w')"
  by (simp add: get_pdf_content_body_def)

lemma body_download_none:
  "storage_download sv (clock w) file_path = Inr None \<Longrightarrow>
   \<exists>e' w'. get_pdf_content_body sv file_path w = (Inl e', w')"
  by (simp add: get_pdf_content_body_def)

lemma body_write_raises:
  "storage_download sv (clock w) file_path = Inr (Some data) \<Longrightarrow>
   file_write sv (clock w + 1) (''temp_'' @ basename file_path) data = Some e \<Longrightarrow>
   \<exists>e' w'. get_pdf_content_body sv file_path w = (Inl e', w')"
  by (simp add: get_pdf_content_body_def Let_def)

lemma body_open_raises:
  "storage_download sv (clock w) file_path = Inr (Some data) \<Longrightarrow>
   file_write sv (clock w + 1) (''temp_'' @ basename file_path) data = None \<Longrightarrow>
   pdf_open sv (clock w + 2) data = Inl e \<Longrightarrow>
   \<exists>e' w'. get_pdf_content_body sv file_path w = (Inl e', w')"
  by (simp add: get_pdf_content_body_def Let_def tick_def)

lemma body_page_raises:
  "storage_download sv (clock w) file_path = Inr (Some data) \<Longrightarrow>
   file_write sv (clock w + 1) (''temp_'' @ basename file_path) data = None \<Longrightarrow>
   pdf_open sv (clock w + 2) data = Inr pages \<Longrightarrow>
   Inl e \<in> set pages \<Longrightarrow>
   \<exists>e' w'. get_pdf_content_body sv file_path w = (Inl e', w')"
  using extract_pages_raises [of e pages "[]"]
  by (auto simp: get_pdf_content_body_def Let_def tick_def)

lemma body_remove_raises:
  "storage_download sv (clock w) file_path = Inr (Some data) \<Longrightarrow>
   file_write sv (clock w + 1) (''temp_'' @ basename file_path) data = None \<Longrightarrow>
   pdf_open sv (clock w + 2) data = Inr pages \<Longrightarrow>
   os_remove sv (clock w + 3) (''temp_'' @ basename file_path) = Some e \<Longrightarrow>
   \<exists>e' w'. get_pdf_content_body sv file_path w = (Inl e', w')"
  by (auto simp: get_pdf_content_body_def Let_def tick_def numeral_3_eq_3 split: sum.splits)

text \<open>
  Claim C9. \<open>get_pdf_content_from_supabase\<close> never propagates an exception to its
  caller: for every path it returns a string, and it returns the empty string whenever a
  step fails, that is when the download raises or yields \<open>None\<close>, when the write of the
  scratch file raises, when opening the PDF raises, when the extraction of a page raises,
  or when the removal of the scratch file raises.
\<close>

theorem fetch_never_raises:
  "(\<exists>t w'. get_pdf_content_from_supabase sv file_path w = (Inr t, w')) \<and>
   (storage_download sv (clock w) file_path = Inl e \<or>
    storage_download sv (clock w) file_path = Inr None \<or>
    (storage_download sv (clock w) file_path = Inr (Some data) \<and>
     (file_write sv (clock w + 1) (''temp_'' @ basename file_path) data = Some e \<or>
      (file_write sv (clock w + 1) (''temp_'' @ basename file_path) data = None \<and>
       (pdf_open sv (clock w + 2) data = Inl e \<or>
        (pdf_open sv (clock w + 2) data = Inr pages \<and>
         (Inl e \<in> set pages \<or>
          os_remove sv (clock w + 3) (''temp_'' @ basename file_path) = Some e))))))
    \<longrightarrow> fst (get_pdf_content_from_supabase sv file_path w) = Inr [])"
proof -
  have "fst (get_pdf_content_from_supabase sv file_path w) = Inr []"
    if "\<exists>e' w'. get_pdf_content_body sv file_path w = (Inl e', w')"
    using that fetch_catches by fastforce
  then show ?thesis
    using fetch_returns body_download_raises body_download_none body_write_raises
      body_open_raises body_page_raises body_remove_raises
    by metis
qed

theorem fetch_never_raises_witness:
  "storage_download broken_pdf (clock retry_world) ''p1/spec/a.pdf'' = Inr (Some ''%PDF-1.7'') \<and>
   file_write broken_pdf (clock retry_world + 1) (''temp_'' @ basename ''p1/spec/a.pdf'') ''%PDF-1.7'' = None \<and>
   pdf_open broken_pdf (clock retry_world + 2) ''%PDF-1.7'' = Inl (Exception ''No /Root object! - Is this really a PDF?'') \<and>
   fst (get_pdf_content_from_supabase broken_pdf ''p1/spec/a.pdf'' retry_world) = Inr []"
proof -
  have d: "storage_download broken_pdf (clock retry_world) ''p1/spec/a.pdf'' = Inr (Some ''%PDF-1.7'')"
    by (simp add: broken_pdf_def ok_services_def)
  have f: "file_write broken_pdf (clock retry_world + 1) (''temp_'' @ basename ''p1/spec/a.pdf'') ''%PDF-1.7'' = None"
    by (simp add: broken_pdf_def ok_services_def)
  have p: "pdf_open broken_pdf (clock retry_world + 2) ''%PDF-1.7'' = Inl (Exception ''No /Root object! - Is this really a PDF?'')"
    by (simp add: broken_pdf_def ok_services_def)
  from fetch_never_raises [of broken_pdf "''p1/spec/a.pdf''" retry_world
      "Exception ''No /Root object! - Is this really a PDF?''" "''%PDF-1.7''"] d f p
  have "fst (get_pdf_content_from_supabase broken_pdf ''p1/spec/a.pdf'' retry_world) = Inr []"
    by blast
  with d f p show ?thesis by blast
qed

text \<open>
  Claim C6 says that the scratch file is removed before the call returns, also when the
  extraction fails. The removal of line 81 is inside the \<open>try\<close> and after the
  extraction, so an exception raised while the PDF is opened or read skips it: with bytes
  that are not a PDF the call returns the empty string and the file \<open>temp_a.pdf\<close> is
  still there, while with a readable PDF the same call removes it.
\<close>

theorem scratch_file_left_behind:
  "fst (get_pdf_content_from_supabase broken_pdf ''p1/spec/a.pdf'' retry_world) = Inr [] \<and>
   files retry_world ''temp_a.pdf'' = None \<and>
   files (snd (get_pdf_content_from_supabase broken_pdf ''p1/spec/a.pdf'' retry_world)) ''temp_a.pdf'' =
     Some ''%PDF-1.7'' \<and>
   fst (get_pdf_content_from_supabase ok_services ''p1/spec/a.pdf'' retry_world) \<noteq> Inr [] \<and>
   files (snd (get_pdf_content_from_supabase ok_services ''p1/spec/a.pdf'' retry_world)) ''temp_a.pdf'' =
     None"
  by code_simp

section \<open>Properties of the orchestrator\<close>

lemma print_frame [simp]:
  "project_knowledge (print line w) = project_knowledge w"
  "project_embeddings (print line w) = project_embeddings w"
  "files (print line w) = files w"
  by (simp_all add: print_def)

lemma tick_frame [simp]:
  "project_knowledge (tick w) = project_knowledge w"
  "project_embeddings (tick w) = project_embeddings w"
  "files (tick w) = files w"
  "stdout (tick w) = stdout w"
  by (simp_all add: tick_def)

lemma body_frame:
  "get_pdf_content_body sv file_path w = (r, w') \<Longrightarrow>
   project_knowledge w' = project_knowledge w \<and> project_embeddings w' = project_embeddings w"
  by (auto simp: get_pdf_content_body_def Let_def tick_def split: sum.splits option.splits)

lemma body_stdout:
  "get_pdf_content_body sv file_path (w\<lparr>stdout := s\<rparr>) =
     (case get_pdf_content_body sv file_path w of (r, w') \<Rightarrow> (r, w'\<lparr>stdout := s\<rparr>))"
  by (auto simp: get_pdf_content_body_def Let_def tick_def split: sum.splits option.splits)

lemma fetch_frame:
  "get_pdf_content_from_supabase sv file_path w = (r, w') \<Longrightarrow>
   project_knowledge w' = project_knowledge w \<and> project_embeddings w' = project_embeddings w"
proof -
  assume a: "get_pdf_content_from_supabase sv file_path w = (r, w')"
  obtain r0 w0 where b: "get_pdf_content_body sv file_path w = (r0, w0)"
    by (cases "get_pdf_content_body sv file_path w")
  from body_frame [OF b] a b show ?thesis
    by (cases r0) (auto simp: get_pdf_content_from_supabase_def)
qed

lemma fetch_stdout:
  "fst (get_pdf_content_from_supabase sv file_path (w\<lparr>stdout := s\<rparr>)) =
   fst (get_pdf_content_from_supabase sv file_path w)"
proof -
  obtain r0 w0 where b: "get_pdf_content_body sv file_path w = (r0, w0)"
    by (cases "get_pdf_content_body sv file_path w")
  then show ?thesis
    by (cases r0) (simp_all add: get_pdf_content_from_supabase_def body_stdout)
qed

lemma fetch_print:
  "fst (get_pdf_content_from_supabase sv file_path (print line w)) =
   fst (get_pdf_content_from_supabase sv file_path w)"
  by (simp add: print_def fetch_stdout)

lemma embed_batch_frame:
  "embed_batch sv texts (E, w) i = (E', w') \<Longrightarrow>
   project_knowledge w' = project_knowledge w \<and> project_embeddings w' = project_embeddings w"
  by (auto simp: embed_batch_def Let_def split: sum.splits)

lemma embed_fold_frame:
  "foldl (embed_batch sv texts) (E, w) is = (E', w') \<Longrightarrow>
   project_knowledge w' = project_knowledge w \<and> project_embeddings w' = project_embeddings w"
proof (induction "is" arbitrary: E w)
  case Nil
  then show ?case by simp
next
  case (Cons i "is")
  obtain E1 w1 where s: "embed_batch sv texts (E, w) i = (E1, w1)"
    by (cases "embed_batch sv texts (E, w) i")
  with Cons.prems have "foldl (embed_batch sv texts) (E1, w1) is = (E', w')" by simp
  from Cons.IH [OF this] embed_batch_frame [OF s] show ?case by simp
qed

lemma embed_frame:
  "embed_texts sv texts w = (r, w') \<Longrightarrow>
   project_knowledge w' = project_knowledge w \<and> project_embeddings w' = project_embeddings w"
proof -
  assume a: "embed_texts sv texts w = (r, w')"
  obtain E1 w1 where f: "foldl (embed_batch sv texts) ([], w) (range_step (length texts) 100) = (E1, w1)"
    by (cases "foldl (embed_batch sv texts) ([], w) (range_step (length texts) 100)")
  from embed_fold_frame [OF f] a f show ?thesis by (simp add: embed_texts_def)
qed

lemma store_frame:
  "project_knowledge (store_chunks sv project_id knowledge_id n rows w) = project_knowledge w"
  by (induction rows arbitrary: w) (auto simp: Let_def split: option.splits)

lemma update_knowledge_ok:
  "update_knowledge sv knowledge_id columns w = (None, w') \<Longrightarrow>
   project_knowledge w' =
     map (\<lambda>r. if pk_id r = knowledge_id then columns r else r) (project_knowledge w) \<and>
   project_embeddings w' = project_embeddings w"
  by (auto simp: update_knowledge_def split: option.splits)

lemma update_knowledge_accepts:
  "db_update sv (clock w) knowledge_id = None \<Longrightarrow>
   \<exists>w'. update_knowledge sv knowledge_id columns w = (None, w')"
  by (simp add: update_knowledge_def)

lemma process_body_empty:
  assumes "fst (get_pdf_content_from_supabase sv file_path w) = Inr []"
  shows "\<exists>w1. process_body sv project_id knowledge_id file_path file_name w =
           (Inl (Exception ''No text content extracted from PDF''), w1) \<and>
         project_knowledge w1 = project_knowledge w \<and> project_embeddings w1 = project_embeddings w"
proof -
  let ?w0 = "print ''Extracting text from PDF...'' (print (''Processing PDF: '' @ file_name) w)"
  obtain r w1 where f: "get_pdf_content_from_supabase sv file_path ?w0 = (r, w1)"
    by (cases "get_pdf_content_from_supabase sv file_path ?w0")
  have "fst (get_pdf_content_from_supabase sv file_path ?w0) = Inr []"
    using assms by (simp add: fetch_print)
  with f have r: "r = Inr []" by simp
  from fetch_frame [OF f] f r show ?thesis by (simp add: process_body_def)
qed

text \<open>
  Claim C7. If the text fetched for a record is empty, \<open>process_pdf_and_store_embeddings\<close>
  fails that record: every row of \<open>project_knowledge\<close> with that id gets
  \<open>processed = False\<close> and the non-empty error message
  \<open>No text content extracted from PDF\<close>, no row is inserted into \<open>project_embeddings\<close>,
  and the exception is raised to the caller from the state in which the record is updated.
  The datastore is taken to accept the status update.
\<close>

theorem empty_text_fails_record:
  assumes "fst (get_pdf_content_from_supabase sv file_path w) = Inr []"
    and "\<forall>t. db_update sv t knowledge_id = None"
  shows "\<exists>w'. process_pdf_and_store_embeddings sv project_id knowledge_id file_path file_name w =
             (Inl (Exception ''No text content extracted from PDF''), w') \<and>
           project_embeddings w' = project_embeddings w \<and>
           project_knowledge w' =
             map (\<lambda>r. if pk_id r = knowledge_id
                       then r\<lparr>pk_processed := False,
                              pk_processing_error := Some ''No text content extracted from PDF''\<rparr>
                       else r) (project_knowledge w)"
proof -
  obtain w1 where b: "process_body sv project_id knowledge_id file_path file_name w =
      (Inl (Exception ''No text content extracted from PDF''), w1)"
    and k1: "project_knowledge w1 = project_knowledge w"
    and e1: "project_embeddings w1 = project_embeddings w"
    using process_body_empty [OF assms(1)] by blast
  let ?w2 = "print (''Error processing PDF: '' @ str_exn (Exception ''No text content extracted from PDF'')) w1"
  let ?cols = "\<lambda>r. r\<lparr>pk_processed := False,
      pk_processing_error := Some (str_exn (Exception ''No text content extracted from PDF''))\<rparr>"
  obtain w' where u: "update_knowledge sv knowledge_id ?cols ?w2 = (None, w')"
    using update_knowledge_accepts assms(2) by blast
  have "process_pdf_and_store_embeddings sv project_id knowledge_id file_path file_name w =
          (Inl (Exception ''No text content extracted from PDF''), w')"
    using b u by (simp add: process_pdf_and_store_embeddings_def)
  moreover from update_knowledge_ok [OF u] k1 e1
  have "project_embeddings w' = project_embeddings w \<and>
        project_knowledge w' = map (\<lambda>r. if pk_id r = knowledge_id then ?cols r else r) (project_knowledge w)"
    by simp
  ultimately show ?thesis by simp
qed

theorem empty_text_fails_record_witness:
  "fst (get_pdf_content_from_supabase missing_file ''p1/spec/a.pdf'' retry_world) = Inr [] \<and>
   (\<forall>t. db_update missing_file t ''k1'' = None) \<and>
   (\<exists>w'. process_pdf_and_store_embeddings missing_file ''p1'' ''k1'' ''p1/spec/a.pdf'' ''a.pdf'' retry_world =
            (Inl (Exception ''No text content extracted from PDF''), w') \<and>
          project_embeddings w' = [] \<and>
          map pk_processed (project_knowledge w') = [False] \<and>
          map pk_processing_error (project_knowledge w') = [Some ''No text content extracted from PDF''])"
proof -
  have f: "fst (get_pdf_content_from_supabase missing_file ''p1/spec/a.pdf'' retry_world) = Inr []"
    by (simp add: get_pdf_content_from_supabase_def get_pdf_content_body_def missing_file_def
        ok_services_def)
  have u: "\<forall>t. db_update missing_file t ''k1'' = None"
    by (simp add: missing_file_def ok_services_def)
  from empty_text_fails_record [OF f u, of "''p1''" "''a.pdf''"]
  obtain w' where
    "process_pdf_and_store_embeddings missing_file ''p1'' ''k1'' ''p1/spec/a.pdf'' ''a.pdf'' retry_world =
       (Inl (Exception ''No text content extracted from PDF''), w')"
    "project_embeddings w' = project_embeddings retry_world"
    "project_knowledge w' =
       map (\<lambda>r. if pk_id r = ''k1''
                 then r\<lparr>pk_processed := False,
                        pk_processing_error := Some ''No text content extracted from PDF''\<rparr>
                 else r) (project_knowledge retry_world)"
    by blast
  then have r: "process_pdf_and_store_embeddings missing_file ''p1'' ''k1'' ''p1/spec/a.pdf'' ''a.pdf'' retry_world =
       (Inl (Exception ''No text content extracted from PDF''), w') \<and>
          project_embeddings w' = [] \<and>
          map pk_processed (project_knowledge w') = [False] \<and>
          map pk_processing_error (project_knowledge w') = [Some ''No text content extracted from PDF'']"
    by (simp add: retry_world_def)
  from f u r show ?thesis by (intro conjI exI [of _ w']) simp_all
qed

lemma process_body_success:
  assumes "process_body sv project_id knowledge_id file_path file_name w = (Inr u, w')"
  shows "\<exists>text_content w1 embeddings w2.
           get_pdf_content_from_supabase sv file_path
             (print ''Extracting text from PDF...'' (print (''Processing PDF: '' @ file_name) w)) =
             (Inr text_content, w1) \<and>
           text_content \<noteq> [] \<and>
           embed_texts sv (split_into_chunks text_content 1000 200)
             (print ''Generating embeddings...''
               (print (''Created '' @ str_nat (length (split_into_chunks text_content 1000 200)) @ '' chunks'')
                 (print ''Splitting text into chunks...''
                   (print (''Extracted '' @ str_nat (length text_content) @ '' characters of text'') w1)))) =
             (Inr embeddings, w2) \<and>
           update_knowledge sv knowledge_id
             (\<lambda>r. r\<lparr>pk_processed := True, pk_processed_at := Some ''now()'',
                     pk_chunks_count := Some (length (split_into_chunks text_content 1000 200))\<rparr>)
             (print (''Successfully processed and stored embeddings for '' @ file_name)
               (store_chunks sv project_id knowledge_id (length (split_into_chunks text_content 1000 200))
                 (enumerate_zip (split_into_chunks text_content 1000 200) embeddings)
                 (print ''Storing embeddings in database...'' w2))) =
             (None, w')"
proof -
  let ?w0 = "print ''Extracting text from PDF...'' (print (''Processing PDF: '' @ file_name) w)"
  obtain r1 w1 where f: "get_pdf_content_from_supabase sv file_path ?w0 = (r1, w1)"
    by (cases "get_pdf_content_from_supabase sv file_path ?w0")
  from assms f obtain text_content where r1: "r1 = Inr text_content"
    by (cases r1) (auto simp: process_body_def)
  from assms f r1 have ne: "text_content \<noteq> []"
    by (auto simp: process_body_def split: if_splits)
  let ?chunks = "split_into_chunks text_content 1000 200"
  let ?w1 = "print ''Generating embeddings...''
               (print (''Created '' @ str_nat (length ?chunks) @ '' chunks'')
                 (print ''Splitting text into chunks...''
                   (print (''Extracted '' @ str_nat (length text_content) @ '' characters of text'') w1)))"
  obtain r2 w2 where e: "embed_texts sv ?chunks ?w1 = (r2, w2)"
    by (cases "embed_texts sv ?chunks ?w1")
  from assms f r1 ne e obtain embeddings where r2: "r2 = Inr embeddings"
    by (cases r2) (auto simp: process_body_def Let_def)
  let ?w4 = "print (''Successfully processed and stored embeddings for '' @ file_name)
               (store_chunks sv project_id knowledge_id (length ?chunks)
                 (enumerate_zip ?chunks embeddings)
                 (print ''Storing embeddings in database...'' w2))"
  let ?cols = "\<lambda>r. r\<lparr>pk_processed := True, pk_processed_at := Some ''now()'',
                     pk_chunks_count := Some (length ?chunks)\<rparr>"
  obtain r3 w5 where up: "update_knowledge sv knowledge_id ?cols ?w4 = (r3, w5)"
    by (cases "update_knowledge sv knowledge_id ?cols ?w4")
  from assms f r1 ne e r2 up have "r3 = None \<and> w5 = w'"
    by (cases r3) (auto simp: process_body_def Let_def)
  with f r1 ne e r2 up show ?thesis by blast
qed

text \<open>
  Claim C3, as amended. Whenever \<open>process_pdf_and_store_embeddings\<close> returns without an
  exception, it has updated every row of \<open>project_knowledge\<close> with that id to
  \<open>processed = True\<close>, \<open>processed_at\<close> set, and \<open>chunks_count\<close> equal to the number of
  chunks the chunker produced from the fetched text, whatever the inserts did; the other
  columns, the stored error message among them, are left as they were. The claim as
  written has the error message cleared: the update of lines 157 to 161 does not name the
  column \<open>processing_error\<close>, so a record that failed before and succeeds now keeps its
  old message.
\<close>

theorem success_marks_record:
  assumes "process_pdf_and_store_embeddings sv project_id knowledge_id file_path file_name w = (Inr u, w')"
  shows "\<exists>text_content.
           fst (get_pdf_content_from_supabase sv file_path w) = Inr text_content \<and>
           text_content \<noteq> [] \<and>
           project_knowledge w' =
             map (\<lambda>r. if pk_id r = knowledge_id
                       then r\<lparr>pk_processed := True, pk_processed_at := Some ''now()'',
                              pk_chunks_count := Some (length (split_into_chunks text_content 1000 200))\<rparr>
                       else r) (project_knowledge w) \<and>
           map pk_processing_error (project_knowledge w') = map pk_processing_error (project_knowledge w)"
proof -
  from assms have b: "process_body sv project_id knowledge_id file_path file_name w = (Inr u, w')"
    by (auto simp: process_pdf_and_store_embeddings_def split: prod.splits sum.splits option.splits)
  from process_body_success [OF b] obtain text_content w1 embeddings w2 where
    f: "get_pdf_content_from_supabase sv file_path
             (print ''Extracting text from PDF...'' (print (''Processing PDF: '' @ file_name) w)) =
             (Inr text_content, w1)" and
    ne: "text_content \<noteq> []" and
    e: "embed_texts sv (split_into_chunks text_content 1000 200)
             (print ''Generating embeddings...''
               (print (''Created '' @ str_nat (length (split_into_chunks text_content 1000 200)) @ '' chunks'')
                 (print ''Splitting text into chunks...''
                   (print (''Extracted '' @ str_nat (length text_content) @ '' characters of text'') w1)))) =
             (Inr embeddings, w2)" and
    up: "update_knowledge sv knowledge_id
             (\<lambda>r. r\<lparr>pk_processed := True, pk_processed_at := Some ''now()'',
                     pk_chunks_count := Some (length (split_into_chunks text_content 1000 200))\<rparr>)
             (print (''Successfully processed and stored embeddings for '' @ file_name)
               (store_chunks sv project_id knowledge_id (length (split_into_chunks text_content 1000 200))
                 (enumerate_zip (split_into_chunks text_content 1000 200) embeddings)
                 (print ''Storing embeddings in database...'' w2))) =
             (None, w')"
    by blast
  have "fst (get_pdf_content_from_supabase sv file_path w) =
        fst (get_pdf_content_from_supabase sv file_path
             (print ''Extracting text from PDF...'' (print (''Processing PDF: '' @ file_name) w)))"
    by (simp add: fetch_print)
  with f have 1: "fst (get_pdf_content_from_supabase sv file_path w) = Inr text_content" by simp
  have "project_knowledge w1 = project_knowledge w" using fetch_frame [OF f] by simp
  moreover have "project_knowledge w2 = project_knowledge w1" using embed_frame [OF e] by simp
  ultimately have "project_knowledge
      (print (''Successfully processed and stored embeddings for '' @ file_name)
        (store_chunks sv project_id knowledge_id (length (split_into_chunks text_content 1000 200))
          (enumerate_zip (split_into_chunks text_content 1000 200) embeddings)
          (print ''Storing embeddings in database...'' w2))) = project_knowledge w"
    by (simp add: store_frame)
  with update_knowledge_ok [OF up]
  have 2: "project_knowledge w' =
             map (\<lambda>r. if pk_id r = knowledge_id
                       then r\<lparr>pk_processed := True, pk_processed_at := Some ''now()'',
                              pk_chunks_count := Some (length (split_into_chunks text_content 1000 200))\<rparr>
                       else r) (project_knowledge w)"
    by simp
  have 3: "map pk_processing_error (project_knowledge w') = map pk_processing_error (project_knowledge w)"
    unfolding 2 by (induction "project_knowledge w") auto
  from 1 ne 2 3 show ?thesis by blast
qed

theorem success_marks_record_witness:
  "\<exists>w' text_content.
     process_pdf_and_store_embeddings ok_services ''p1'' ''k1'' ''p1/spec/a.pdf'' ''a.pdf'' retry_world =
       (Inr (), w') \<and>
     fst (get_pdf_content_from_supabase ok_services ''p1/spec/a.pdf'' retry_world) = Inr text_content \<and>
     map pk_processed (project_knowledge w') = [True] \<and>
     map pk_processed_at (project_knowledge w') = [Some ''now()''] \<and>
     map pk_chunks_count (project_knowledge w') = [Some (length (split_into_chunks text_content 1000 200))] \<and>
     map pk_processing_error (project_knowledge w') = [Some ''old error'']"
proof -
  obtain r w' where
    p: "process_pdf_and_store_embeddings ok_services ''p1'' ''k1'' ''p1/spec/a.pdf'' ''a.pdf'' retry_world = (r, w')"
    by (cases "process_pdf_and_store_embeddings ok_services ''p1'' ''k1'' ''p1/spec/a.pdf'' ''a.pdf'' retry_world")
  have "fst (process_pdf_and_store_embeddings ok_services ''p1'' ''k1'' ''p1/spec/a.pdf'' ''a.pdf'' retry_world) = Inr ()"
    by code_simp
  with p have q: "process_pdf_and_store_embeddings ok_services ''p1'' ''k1'' ''p1/spec/a.pdf'' ''a.pdf'' retry_world = (Inr (), w')"
    by simp
  from success_marks_record [OF q] obtain text_content where
    t: "fst (get_pdf_content_from_supabase ok_services ''p1/spec/a.pdf'' retry_world) = Inr text_content" and
    k: "project_knowledge w' =
             map (\<lambda>r. if pk_id r = ''k1''
                       then r\<lparr>pk_processed := True, pk_processed_at := Some ''now()'',
                              pk_chunks_count := Some (length (split_into_chunks text_content 1000 200))\<rparr>
                       else r) (project_knowledge retry_world)"
    by blast
  from k have
    "map pk_processed (project_knowledge w') = [True] \<and>
     map pk_processed_at (project_knowledge w') = [Some ''now()''] \<and>
     map pk_chunks_count (project_knowledge w') = [Some (length (split_into_chunks text_content 1000 200))] \<and>
     map pk_processing_error (project_knowledge w') = [Some ''old error'']"
    by (simp add: retry_world_def)
  with q t show ?thesis by (intro exI [of _ w'] exI [of _ text_content]) simp
qed

theorem success_marks_record_counterexample:
  "fst (process_pdf_and_store_embeddings ok_services ''p1'' ''k1'' ''p1/spec/a.pdf'' ''a.pdf''
          retry_world) = Inr () \<and>
   map pk_processing_error (project_knowledge retry_world) = [Some ''old error''] \<and>
   map pk_processed
     (project_knowledge
       (snd (process_pdf_and_store_embeddings ok_services ''p1'' ''k1'' ''p1/spec/a.pdf'' ''a.pdf''
               retry_world))) = [True] \<and>
   map pk_processing_error
     (project_knowledge
       (snd (process_pdf_and_store_embeddings ok_services ''p1'' ''k1'' ''p1/spec/a.pdf'' ''a.pdf''
               retry_world))) \<noteq> [None]"
proof -
  have "case process_pdf_and_store_embeddings ok_services ''p1'' ''k1'' ''p1/spec/a.pdf'' ''a.pdf''
               retry_world of
          (r, w') \<Rightarrow>
            r = Inr () \<and> map pk_processed (project_knowledge w') = [True] \<and>
            map pk_processing_error (project_knowledge w') = [Some ''old error'']"
    by code_simp
  moreover have "map pk_processing_error (project_knowledge retry_world) = [Some ''old error'']"
    by (simp add: retry_world_def)
  ultimately show ?thesis by (simp add: case_prod_beta)
qed

lemma process_record_step:
  "process_record sv r w =
     (Inr (),
      case process_pdf_and_store_embeddings sv (pk_project_id r) (pk_id r) (pk_file_path r)
             (pk_file_name r) w of
        (Inr u, w') \<Rightarrow> w'
      | (Inl e, w') \<Rightarrow> print (''Failed to process '' @ pk_file_name r @ '': '' @ str_exn e) w')"
  by (simp add: process_record_def split: prod.splits sum.splits)

lemma process_records_fold:
  "process_records sv recs w =
     (Inr (),
      foldl (\<lambda>w1 r.
               case process_pdf_and_store_embeddings sv (pk_project_id r) (pk_id r) (pk_file_path r)
                      (pk_file_name r) w1 of
                 (Inr u, w2) \<Rightarrow> w2
               | (Inl e, w2) \<Rightarrow> print (''Failed to process '' @ pk_file_name r @ '': '' @ str_exn e) w2)
            w recs)"
  by (induction recs arbitrary: w) (simp_all add: process_record_step)

text \<open>
  Claim C8. \<open>process_all_unprocessed_pdfs\<close> never lets an exception escape. When the
  query succeeds, it takes the rows of \<open>project_knowledge\<close> with \<open>processed = False\<close> in
  the order of the table and runs \<open>process_pdf_and_store_embeddings\<close> on each, one after
  the other, each from the state the previous one left: an exception raised for a record
  is caught, the line \<open>Failed to process\<close> with the file name and the message is printed,
  and the scan goes on with the next record.
\<close>

theorem scan_processes_every_record:
  "\<exists>w'. process_all_unprocessed_pdfs sv w = (Inr (), w') \<and>
     (db_select sv (clock w) = None \<longrightarrow>
        w' = foldl (\<lambda>w1 r.
                      case process_pdf_and_store_embeddings sv (pk_project_id r) (pk_id r)
                             (pk_file_path r) (pk_file_name r) w1 of
                        (Inr u, w2) \<Rightarrow> w2
                      | (Inl e, w2) \<Rightarrow>
                          print (''Failed to process '' @ pk_file_name r @ '': '' @ str_exn e) w2)
                   (print (''Found '' @
                           str_nat (length (filter (\<lambda>r. \<not> pk_processed r) (project_knowledge w))) @
                           '' unprocessed PDFs'') (tick w))
                   (filter (\<lambda>r. \<not> pk_processed r) (project_knowledge w)))"
  by (cases "db_select sv (clock w)")
     (simp_all add: process_all_unprocessed_pdfs_def get_unprocessed_pdfs_def process_records_fold)

theorem scan_processes_every_record_witness:
  "db_select second_missing (clock queue_world) = None \<and>
   (\<exists>w'. process_all_unprocessed_pdfs second_missing queue_world = (Inr (), w') \<and>
      w' = foldl (\<lambda>w1 r.
                      case process_pdf_and_store_embeddings second_missing (pk_project_id r) (pk_id r)
                             (pk_file_path r) (pk_file_name r) w1 of
                        (Inr u, w2) \<Rightarrow> w2
                      | (Inl e, w2) \<Rightarrow>
                          print (''Failed to process '' @ pk_file_name r @ '': '' @ str_exn e) w2)
                   (print (''Found '' @
                           str_nat (length (filter (\<lambda>r. \<not> pk_processed r) (project_knowledge queue_world))) @
                           '' unprocessed PDFs'') (tick queue_world))
                   (filter (\<lambda>r. \<not> pk_processed r) (project_knowledge queue_world)))"
proof -
  have s: "db_select second_missing (clock queue_world) = None"
    by (simp add: second_missing_def ok_services_def)
  from scan_processes_every_record [of second_missing queue_world] s show ?thesis
    by blast
qed

end
